theory Spec2Isabelle
  imports Complex_Main "HOL-Library.Multiset"
begin

section \<open>Embedding store and similarity search\<close>

text \<open>
  The repository holds two implementations of the same store/search core:
  \<^item> \<^verbatim>\<open>main.py\<close>: a hashing embedding (\<^verbatim>\<open>text_to_vector\<close>), module-level functions and
    the endpoint \<^verbatim>\<open>api_search_similar\<close>;
  \<^item> \<^verbatim>\<open>embedding_service.py\<close>: the class \<^verbatim>\<open>EmbeddingService\<close>, which delegates to a
    sentence-transformer model and falls back to \<^verbatim>\<open>np.random.random(384)\<close>.
  Functions of \<^verbatim>\<open>main.py\<close> keep their names; methods of \<^verbatim>\<open>EmbeddingService\<close> carry
  the prefix \<open>es_\<close> where the two files use the same name.

  Modelling conventions.
  \<^item> A Python \<^verbatim>\<open>str\<close> is the list of its code points (\<open>pystr\<close>), so \<open>length\<close> is
    Python's \<^verbatim>\<open>len\<close>.
  \<^item> The arithmetic of \<^verbatim>\<open>cosine_similarity\<close> is IEEE 754 binary64 (\<open>pyfloat\<close>): every
    operation rounds to nearest, ties to even, overflows to an infinity and underflows through
    the subnormals to zero; NaN is a value. Signed zeros are not distinguished. The components
    of a stored vector are finite numbers, taken at their real value. In \<^verbatim>\<open>text_to_vector\<close>,
    whose counts and quotients stay far from the range limits, a float is a \<open>real\<close>.
  \<^item> A raise is a value \<open>Inl e\<close> of \<open>py_error + 'a\<close>.
  \<^item> The SQLite table \<^verbatim>\<open>embeddings\<close> is the list of its rows in rowid order. The
    \<^verbatim>\<open>id\<close> column is read by none of the functions below and is left out. The database is
    taken to be reachable: \<^verbatim>\<open>sqlite3\<close> errors are not modelled.
  \<^item> The column \<^verbatim>\<open>vector_blob\<close> either fails to parse (\<open>Unparsable\<close>) or parses to a flat
    array of numbers, which is what \<^verbatim>\<open>json.dumps\<close> of a vector writes.
\<close>

subsection \<open>Python values\<close>

type_synonym pystr = "nat list"

datatype py_error = ZeroDivisionError | IndexError | ValueError | HTTPException nat

definition lit :: "string \<Rightarrow> pystr" where
  "lit s = map of_char s"

text \<open>Truthiness of an \<^verbatim>\<open>Optional[str]\<close>: \<^verbatim>\<open>None\<close> and \<^verbatim>\<open>""\<close> are falsy.\<close>

fun truthy :: "pystr option \<Rightarrow> bool" where
  "truthy None = False"
| "truthy (Some s) = (s \<noteq> [])"

subsection \<open>Floating point\<close>

text \<open>
  A binary64 value is a finite real, an infinity or NaN. \<open>rne\<close> rounds a real to the nearest
  number with a 53-bit significand and an exponent of the last place not below \<open>-1074\<close>, ties
  to even; \<open>fl\<close> adds the overflow to an infinity beyond the largest finite value.
\<close>

datatype pyfloat = Fin real | PInf | NInf | NaN

definition round_even :: "real \<Rightarrow> int" where
  "round_even y =
     (let f = \<lfloor>y\<rfloor>
      in if y - of_int f < 1 / 2 then f
         else if 1 / 2 < y - of_int f then f + 1
         else if even f then f else f + 1)"

definition ulp_exp :: "real \<Rightarrow> int" where
  "ulp_exp x = max (\<lfloor>log 2 \<bar>x\<bar>\<rfloor> - 52) (- 1074)"

definition rne :: "real \<Rightarrow> real" where
  "rne x =
     (if x = 0 then 0
      else of_int (round_even (x / 2 powr of_int (ulp_exp x))) * 2 powr of_int (ulp_exp x))"

definition max_double :: real where
  "max_double = (2 ^ 53 - 1) * 2 ^ 971"

definition fl :: "real \<Rightarrow> pyfloat" where
  "fl x =
     (let r = rne x
      in if max_double < r then PInf else if r < - max_double then NInf else Fin r)"

fun fadd :: "pyfloat \<Rightarrow> pyfloat \<Rightarrow> pyfloat" where
  "fadd (Fin a) (Fin b) = fl (a + b)"
| "fadd NaN y = NaN"
| "fadd x NaN = NaN"
| "fadd PInf NInf = NaN"
| "fadd NInf PInf = NaN"
| "fadd PInf y = PInf"
| "fadd x PInf = PInf"
| "fadd NInf y = NInf"
| "fadd x NInf = NInf"

fun fmul :: "pyfloat \<Rightarrow> pyfloat \<Rightarrow> pyfloat" where
  "fmul (Fin a) (Fin b) = fl (a * b)"
| "fmul NaN y = NaN"
| "fmul x NaN = NaN"
| "fmul PInf (Fin b) = (if b = 0 then NaN else if 0 < b then PInf else NInf)"
| "fmul NInf (Fin b) = (if b = 0 then NaN else if 0 < b then NInf else PInf)"
| "fmul (Fin a) PInf = (if a = 0 then NaN else if 0 < a then PInf else NInf)"
| "fmul (Fin a) NInf = (if a = 0 then NaN else if 0 < a then NInf else PInf)"
| "fmul PInf PInf = PInf"
| "fmul NInf NInf = PInf"
| "fmul PInf NInf = NInf"
| "fmul NInf PInf = NInf"

text \<open>IEEE division, as numpy performs it: a zero divisor gives an infinity or NaN.\<close>

fun fdiv :: "pyfloat \<Rightarrow> pyfloat \<Rightarrow> pyfloat" where
  "fdiv (Fin a) (Fin b) =
     (if b = 0 then (if a = 0 then NaN else if 0 < a then PInf else NInf) else fl (a / b))"
| "fdiv NaN y = NaN"
| "fdiv x NaN = NaN"
| "fdiv (Fin a) PInf = Fin 0"
| "fdiv (Fin a) NInf = Fin 0"
| "fdiv PInf (Fin b) = (if 0 \<le> b then PInf else NInf)"
| "fdiv NInf (Fin b) = (if 0 \<le> b then NInf else PInf)"
| "fdiv x y = NaN"

text \<open>
  \<^verbatim>\<open>x ** 0.5\<close> and \<^verbatim>\<open>np.sqrt\<close>, taken as correctly rounded. Python would give a complex
  number for a negative base; a sum of squares is never negative.
\<close>

fun fsqrt :: "pyfloat \<Rightarrow> pyfloat" where
  "fsqrt (Fin a) = (if 0 \<le> a then fl (sqrt a) else NaN)"
| "fsqrt PInf = PInf"
| "fsqrt NInf = PInf"
| "fsqrt NaN = NaN"

text \<open>Python's \<^verbatim>\<open>a / b\<close> on floats raises \<^verbatim>\<open>ZeroDivisionError\<close> when \<^verbatim>\<open>b == 0\<close>.\<close>

definition py_truediv :: "pyfloat \<Rightarrow> pyfloat \<Rightarrow> py_error + pyfloat" where
  "py_truediv a b = (if b = Fin 0 then Inl ZeroDivisionError else Inr (fdiv a b))"

text \<open>Python's \<^verbatim>\<open><\<close> and \<^verbatim>\<open><=\<close> on floats: every comparison with NaN is false.\<close>

fun flt :: "pyfloat \<Rightarrow> pyfloat \<Rightarrow> bool" where
  "flt NaN y = False"
| "flt x NaN = False"
| "flt (Fin a) (Fin b) = (a < b)"
| "flt NInf NInf = False"
| "flt NInf y = True"
| "flt x NInf = False"
| "flt PInf y = False"
| "flt x PInf = True"

fun fle :: "pyfloat \<Rightarrow> pyfloat \<Rightarrow> bool" where
  "fle NaN y = False"
| "fle x NaN = False"
| "fle x y = (\<not> flt y x)"

text \<open>\<^verbatim>\<open>sum(...)\<close> adds from left to right, starting from 0.\<close>

definition fsum :: "pyfloat list \<Rightarrow> pyfloat" where
  "fsum xs = foldl fadd (Fin 0) xs"

text \<open>\<^verbatim>\<open>xs[:k]\<close>: a negative \<^verbatim>\<open>k\<close> counts from the end.\<close>

definition py_slice_to :: "int \<Rightarrow> 'a list \<Rightarrow> 'a list" where
  "py_slice_to k xs =
     (if 0 \<le> k then take (nat k) xs else take (length xs - nat (- k)) xs)"

text \<open>
  \<^verbatim>\<open>vec[idx] += 1.0\<close>: a negative index counts from the end, an index out of range raises
  \<^verbatim>\<open>IndexError\<close>.
\<close>

definition py_incr_at :: "real list \<Rightarrow> int \<Rightarrow> py_error + real list" where
  "py_incr_at vec idx =
     (let n = int (length vec); j = (if idx < 0 then n + idx else idx)
      in if 0 \<le> j \<and> j < n then Inr (vec[nat j := vec ! nat j + 1]) else Inl IndexError)"

text \<open>
  The code points for which \<^verbatim>\<open>str.isspace\<close> holds; \<^verbatim>\<open>str.split()\<close> without arguments
  splits on runs of them and returns no empty token.
\<close>

definition py_isspace :: "nat \<Rightarrow> bool" where
  "py_isspace c \<longleftrightarrow>
     (9 \<le> c \<and> c \<le> 13) \<or> (28 \<le> c \<and> c \<le> 32) \<or> c = 133 \<or> c = 160 \<or> c = 5760 \<or>
     (8192 \<le> c \<and> c \<le> 8202) \<or> c = 8232 \<or> c = 8233 \<or> c = 8239 \<or> c = 8287 \<or> c = 12288"

fun py_split_from :: "pystr \<Rightarrow> pystr \<Rightarrow> pystr list" where
  "py_split_from cur [] = (if cur = [] then [] else [cur])"
| "py_split_from cur (c # cs) =
     (if py_isspace c
      then (if cur = [] then py_split_from [] cs else cur # py_split_from [] cs)
      else py_split_from (cur @ [c]) cs)"

definition py_split :: "pystr \<Rightarrow> pystr list" where
  "py_split t = py_split_from [] t"

subsection \<open>\<^verbatim>\<open>main.py\<close>: hashing embedding and cosine similarity\<close>

definition DIM :: int where
  "DIM = 64"

definition sum_sq :: "real list \<Rightarrow> real" where
  "sum_sq vec = sum_list (map (\<lambda>v. v * v) vec)"

definition l2_normalize :: "real list \<Rightarrow> real list" where
  "l2_normalize vec =
     (let norm = sqrt (sum_sq vec) in if norm > 0 then map (\<lambda>v. v / norm) vec else vec)"

text \<open>
  The loop \<^verbatim>\<open>for token in text.split(): h = hash(token); idx = h % dim; vec[idx] += 1.0\<close>.
  Python's builtin \<^verbatim>\<open>hash\<close> is the parameter \<open>h\<close>. \<^verbatim>\<open>h % dim\<close> raises when \<^verbatim>\<open>dim\<close> is 0 and
  otherwise has the sign of \<^verbatim>\<open>dim\<close>, as \<open>mod\<close> on \<open>int\<close> has.
\<close>

fun accumulate :: "(pystr \<Rightarrow> int) \<Rightarrow> int \<Rightarrow> real list \<Rightarrow> pystr list \<Rightarrow> py_error + real list" where
  "accumulate h dm vec [] = Inr vec"
| "accumulate h dm vec (token # tokens) =
     (if dm = 0 then Inl ZeroDivisionError
      else (case py_incr_at vec (h token mod dm) of
              Inl e \<Rightarrow> Inl e
            | Inr vec' \<Rightarrow> accumulate h dm vec' tokens))"

definition text_to_vector :: "(pystr \<Rightarrow> int) \<Rightarrow> pystr \<Rightarrow> int \<Rightarrow> py_error + real list" where
  "text_to_vector h text dm =
     (case accumulate h dm (replicate (nat dm) 0) (py_split text) of
        Inl e \<Rightarrow> Inl e
      | Inr vec \<Rightarrow> Inr (l2_normalize vec))"

text \<open>
  \<^verbatim>\<open>sum(a * b for a, b in zip(v1, v2))\<close> and \<^verbatim>\<open>sum(a * a for a in v) ** 0.5\<close>, in floats.
\<close>

definition fdot :: "real list \<Rightarrow> real list \<Rightarrow> pyfloat" where
  "fdot v1 v2 = fsum (map (\<lambda>(a, b). fmul (Fin a) (Fin b)) (zip v1 v2))"

definition fnorm :: "real list \<Rightarrow> pyfloat" where
  "fnorm v = fsqrt (fsum (map (\<lambda>a. fmul (Fin a) (Fin a)) v))"

definition cosine_similarity :: "real list \<Rightarrow> real list \<Rightarrow> py_error + pyfloat" where
  "cosine_similarity v1 v2 =
     (let dot = fdot v1 v2; n1 = fnorm v1; n2 = fnorm v2
      in if n1 = Fin 0 \<or> n2 = Fin 0 then Inr (Fin 0) else py_truediv dot (fmul n1 n2))"

subsection \<open>The \<^verbatim>\<open>embeddings\<close> table\<close>

datatype blob = Unparsable | JsonArray "real list"

definition json_dumps :: "real list \<Rightarrow> blob" where
  "json_dumps vec = JsonArray vec"

text \<open>\<^verbatim>\<open>json.loads\<close> raises \<^verbatim>\<open>JSONDecodeError\<close>, a \<^verbatim>\<open>ValueError\<close>, on a payload it cannot parse.\<close>

fun json_loads :: "blob \<Rightarrow> py_error + real list" where
  "json_loads Unparsable = Inl ValueError"
| "json_loads (JsonArray vec) = Inr vec"

record embedding_row =
  item_type :: pystr
  item_id :: pystr
  vector_blob :: blob
  timestamp :: pystr
  text_content :: "pystr option"

type_synonym table = "embedding_row list"

text \<open>
  \<^verbatim>\<open>INSERT OR REPLACE INTO embeddings\<close> under \<^verbatim>\<open>UNIQUE(item_type, item_id)\<close>: SQLite deletes
  the rows that conflict with the new one, then inserts it with a fresh rowid.
\<close>

definition same_key :: "embedding_row \<Rightarrow> embedding_row \<Rightarrow> bool" where
  "same_key a b \<longleftrightarrow> item_type a = item_type b \<and> item_id a = item_id b"

definition insert_or_replace :: "embedding_row \<Rightarrow> table \<Rightarrow> table" where
  "insert_or_replace row tbl = filter (\<lambda>r. \<not> same_key r row) tbl @ [row]"

text \<open>\<^verbatim>\<open>cursor.fetchone()\<close> after a \<^verbatim>\<open>SELECT ... WHERE\<close>: the first matching row, if any.\<close>

definition db_query_one :: "(embedding_row \<Rightarrow> bool) \<Rightarrow> table \<Rightarrow> embedding_row option" where
  "db_query_one cond tbl = find cond tbl"

subsection \<open>\<^verbatim>\<open>main.py\<close>: store and search\<close>

text \<open>The timestamp \<^verbatim>\<open>datetime.utcnow().isoformat()\<close> is the parameter \<open>ts\<close>.\<close>

definition store_embedding ::
  "(pystr \<Rightarrow> int) \<Rightarrow> pystr \<Rightarrow> pystr \<Rightarrow> pystr \<Rightarrow> pystr \<Rightarrow> table \<Rightarrow> bool \<times> table" where
  "store_embedding h ts itype iid text tbl =
     (case text_to_vector h text DIM of
        Inl e \<Rightarrow> (False, tbl)
      | Inr vec \<Rightarrow>
          (True, insert_or_replace
                   \<lparr>item_type = itype, item_id = iid, vector_blob = json_dumps vec,
                    timestamp = ts, text_content = None\<rparr> tbl))"

definition get_embedding :: "pystr \<Rightarrow> pystr \<Rightarrow> table \<Rightarrow> real list option" where
  "get_embedding itype iid tbl =
     (case db_query_one (\<lambda>r. item_type r = itype \<and> item_id r = iid) tbl of
        None \<Rightarrow> None
      | Some row \<Rightarrow> (case json_loads (vector_blob row) of Inl e \<Rightarrow> None | Inr vec \<Rightarrow> Some vec))"

fun get_all_embeddings :: "table \<Rightarrow> (pystr \<times> pystr \<times> real list) list" where
  "get_all_embeddings [] = []"
| "get_all_embeddings (row # rows) =
     (case json_loads (vector_blob row) of
        Inl e \<Rightarrow> get_all_embeddings rows
      | Inr vec \<Rightarrow> (item_type row, item_id row, vec) # get_all_embeddings rows)"

record SearchSimilarRequest =
  summary_id :: "pystr option"
  message_text :: "pystr option"
  top_k :: int

record RelatedItem =
  rel_item_type :: pystr
  rel_item_id :: pystr
  score :: pyfloat
  rel_text :: "pystr option"

text \<open>Lines 332 to 343 of \<^verbatim>\<open>api_search_similar\<close>: the query vector, or \<open>None\<close> for an empty answer.\<close>

definition query_vec :: "(pystr \<Rightarrow> int) \<Rightarrow> SearchSimilarRequest \<Rightarrow> table \<Rightarrow> py_error + real list option" where
  "query_vec h req tbl =
     (case message_text req of
        Some m \<Rightarrow>
          (if m \<noteq> [] then (case text_to_vector h m DIM of Inl e \<Rightarrow> Inl e | Inr v \<Rightarrow> Inr (Some v))
           else (case summary_id req of
                   Some sid \<Rightarrow> (if sid \<noteq> [] then Inr (get_embedding (lit ''summary'') sid tbl) else Inr None)
                 | None \<Rightarrow> Inr None))
      | None \<Rightarrow>
          (case summary_id req of
             Some sid \<Rightarrow> (if sid \<noteq> [] then Inr (get_embedding (lit ''summary'') sid tbl) else Inr None)
           | None \<Rightarrow> Inr None))"

text \<open>The loop over \<^verbatim>\<open>candidates\<close>, lines 347 to 351.\<close>

fun score_candidates ::
  "pystr option \<Rightarrow> real list \<Rightarrow> (pystr \<times> pystr \<times> real list) list \<Rightarrow>
   py_error + (pystr \<times> pystr \<times> pyfloat) list" where
  "score_candidates sid q [] = Inr []"
| "score_candidates sid q ((itype, iid, vec) # cands) =
     (if truthy sid \<and> itype = lit ''summary'' \<and> Some iid = sid then score_candidates sid q cands
      else (case cosine_similarity q vec of
              Inl e \<Rightarrow> Inl e
            | Inr s \<Rightarrow> (case score_candidates sid q cands of
                          Inl e \<Rightarrow> Inl e
                        | Inr scored \<Rightarrow> Inr ((itype, iid, s) # scored))))"

text \<open>
  \<^verbatim>\<open>list.sort(key=..., reverse=True)\<close> compares keys with \<^verbatim>\<open><\<close> only and is stable. When no
  key is NaN that determines the result: the elements in descending key order, equal keys in
  their original order. With a NaN key the order CPython leaves depends on the internals of
  its merge sort; \<open>sort_desc\<close> is then an insertion sort with the same comparison, and no
  statement below about the order of a result covers that case.
\<close>

fun insert_desc :: "('a \<Rightarrow> pyfloat) \<Rightarrow> 'a \<Rightarrow> 'a list \<Rightarrow> 'a list" where
  "insert_desc key x [] = [x]"
| "insert_desc key x (y # ys) =
     (if flt (key x) (key y) then y # insert_desc key x ys else x # y # ys)"

definition sort_desc :: "('a \<Rightarrow> pyfloat) \<Rightarrow> 'a list \<Rightarrow> 'a list" where
  "sort_desc key xs = foldr (insert_desc key) xs []"

definition to_related :: "pystr \<times> pystr \<times> pyfloat \<Rightarrow> RelatedItem" where
  "to_related x =
     (case x of (i, j, s) \<Rightarrow> \<lparr>rel_item_type = i, rel_item_id = j, score = s, rel_text = None\<rparr>)"

definition api_search_similar ::
  "(pystr \<Rightarrow> int) \<Rightarrow> SearchSimilarRequest \<Rightarrow> table \<Rightarrow> py_error + RelatedItem list" where
  "api_search_similar h req tbl =
     (if \<not> truthy (summary_id req) \<and> \<not> truthy (message_text req) then Inl (HTTPException 400)
      else (case query_vec h req tbl of
              Inl e \<Rightarrow> Inl e
            | Inr None \<Rightarrow> Inr []
            | Inr (Some q) \<Rightarrow>
                (case score_candidates (summary_id req) q (get_all_embeddings tbl) of
                   Inl e \<Rightarrow> Inl e
                 | Inr scored \<Rightarrow>
                     Inr (map to_related
                            (py_slice_to (max 1 (min (top_k req) 10))
                               (sort_desc (\<lambda>x. snd (snd x)) scored))))))"

subsection \<open>\<^verbatim>\<open>embedding_service.py\<close>: class \<^verbatim>\<open>EmbeddingService\<close>\<close>

text \<open>
  The sentence-transformer model is the parameter \<open>encode\<close>; \<open>None\<close> stands for a raise
  while loading or encoding. numpy's global random generator is explicit state: \<open>rng\<close> draws
  one float and returns the next generator state, and \<^verbatim>\<open>np.random.random(n)\<close> draws \<open>n\<close>.
\<close>

fun random_random :: "('g \<Rightarrow> real \<times> 'g) \<Rightarrow> nat \<Rightarrow> 'g \<Rightarrow> real list \<times> 'g" where
  "random_random rng 0 g = ([], g)"
| "random_random rng (Suc n) g =
     (case rng g of (x, g') \<Rightarrow> (case random_random rng n g' of (xs, g'') \<Rightarrow> (x # xs, g'')))"

definition generate_embedding ::
  "(pystr \<Rightarrow> real list option) \<Rightarrow> ('g \<Rightarrow> real \<times> 'g) \<Rightarrow> pystr \<Rightarrow> 'g \<Rightarrow> real list \<times> 'g" where
  "generate_embedding encode rng text g =
     (case encode text of
        Some embedding \<Rightarrow> (embedding, g)
      | None \<Rightarrow> random_random rng 384 g)"

definition es_store_embedding ::
  "(pystr \<Rightarrow> real list option) \<Rightarrow> ('g \<Rightarrow> real \<times> 'g) \<Rightarrow> pystr \<Rightarrow> pystr \<Rightarrow> pystr \<Rightarrow> pystr \<Rightarrow>
   table \<Rightarrow> 'g \<Rightarrow> (bool \<times> table) \<times> 'g" where
  "es_store_embedding encode rng ts itype iid text tbl g =
     (case generate_embedding encode rng text g of
        (embedding, g') \<Rightarrow>
          ((True, insert_or_replace
                    \<lparr>item_type = itype, item_id = iid, vector_blob = json_dumps embedding,
                     timestamp = ts, text_content = Some text\<rparr> tbl), g'))"

text \<open>
  \<^verbatim>\<open>np.dot\<close> of two one-dimensional arrays raises \<^verbatim>\<open>ValueError\<close> when their lengths differ;
  it is taken to add the products from left to right. \<^verbatim>\<open>np.linalg.norm\<close> of a vector is the
  square root of its dot product with itself. numpy's division does not raise.
  \<open>es_cosine_try\<close> is the body of the \<^verbatim>\<open>try\<close>, \<open>es_cosine_similarity\<close> adds the
  \<^verbatim>\<open>except Exception: return 0.0\<close>.
\<close>

definition np_dot :: "real list \<Rightarrow> real list \<Rightarrow> py_error + pyfloat" where
  "np_dot v1 v2 = (if length v1 = length v2 then Inr (fdot v1 v2) else Inl ValueError)"

definition es_cosine_try :: "real list \<Rightarrow> real list \<Rightarrow> py_error + pyfloat" where
  "es_cosine_try vec1 vec2 =
     (case np_dot vec1 vec2 of
        Inl e \<Rightarrow> Inl e
      | Inr dot_product \<Rightarrow>
          (let norm_v1 = fnorm vec1; norm_v2 = fnorm vec2
           in if norm_v1 = Fin 0 \<or> norm_v2 = Fin 0 then Inr (Fin 0)
              else Inr (fdiv dot_product (fmul norm_v1 norm_v2))))"

definition es_cosine_similarity :: "real list \<Rightarrow> real list \<Rightarrow> pyfloat" where
  "es_cosine_similarity vec1 vec2 =
     (case es_cosine_try vec1 vec2 of Inl e \<Rightarrow> Fin 0 | Inr similarity \<Rightarrow> similarity)"

text \<open>Lines 90 to 105 of \<^verbatim>\<open>search_similar_items\<close>: the text to embed, or \<open>None\<close> for \<^verbatim>\<open>return []\<close>.\<close>

definition es_query_text :: "pystr option \<Rightarrow> pystr option \<Rightarrow> table \<Rightarrow> pystr option" where
  "es_query_text query_text sid tbl =
     (if truthy query_text then query_text
      else if truthy sid then
        (case db_query_one (\<lambda>r. Some (item_id r) = sid \<and> item_type r = lit ''summary'') tbl of
           None \<Rightarrow> None
         | Some row \<Rightarrow> (if truthy (text_content row) then text_content row else None))
      else None)"

definition display_text :: "pystr \<Rightarrow> pystr" where
  "display_text t = (if length t > 200 then take 200 t @ lit ''...'' else t)"

text \<open>The loop over \<^verbatim>\<open>results\<close>, lines 121 to 138, with its inner \<^verbatim>\<open>try\<close>/\<^verbatim>\<open>except\<close>.\<close>

fun similarities :: "real list \<Rightarrow> table \<Rightarrow> RelatedItem list" where
  "similarities q [] = []"
| "similarities q (row # rows) =
     (case text_content row of
        None \<Rightarrow> similarities q rows
      | Some t \<Rightarrow>
          (if t = [] then similarities q rows
           else (case json_loads (vector_blob row) of
                   Inl e \<Rightarrow> similarities q rows
                 | Inr item_embedding \<Rightarrow>
                     \<lparr>rel_item_type = item_type row, rel_item_id = item_id row,
                      score = es_cosine_similarity q item_embedding,
                      rel_text = Some (display_text t)\<rparr> # similarities q rows)))"

definition search_similar_items ::
  "(pystr \<Rightarrow> real list option) \<Rightarrow> ('g \<Rightarrow> real \<times> 'g) \<Rightarrow> pystr option \<Rightarrow> pystr option \<Rightarrow> int \<Rightarrow>
   table \<Rightarrow> 'g \<Rightarrow> RelatedItem list \<times> 'g" where
  "search_similar_items encode rng query_text sid k tbl g =
     (case es_query_text query_text sid tbl of
        None \<Rightarrow> ([], g)
      | Some t \<Rightarrow>
          (case generate_embedding encode rng t g of
             (query_embedding, g') \<Rightarrow>
               (py_slice_to k (sort_desc score (similarities query_embedding tbl)), g')))"

subsection \<open>Specification-level notions\<close>

text \<open>
  The definitions of this subsection follow the words of the specification, not the code;
  the theorems below compare the code with them.
\<close>

definition l2_norm :: "real list \<Rightarrow> real" where
  "l2_norm v = sqrt (\<Sum>x\<leftarrow>v. x\<^sup>2)"



text \<open>
  The float \<^verbatim>\<open>cosine_similarity\<close> of \<^verbatim>\<open>main.py\<close> computes when it returns: 0.0 when a
  computed norm is 0.0, else the rounded quotient of the computed dot product by the rounded
  product of the computed norms.
\<close>

definition cosine_value :: "real list \<Rightarrow> real list \<Rightarrow> pyfloat" where
  "cosine_value v w =
     (if fnorm v = Fin 0 \<or> fnorm w = Fin 0 then Fin 0
      else fdiv (fdot v w) (fmul (fnorm v) (fnorm w)))"

text \<open>Bucket \<open>i\<close> of the histogram counts the tokens whose hash is \<open>i\<close> modulo \<open>D\<close>.\<close>

definition histogram :: "(pystr \<Rightarrow> int) \<Rightarrow> nat \<Rightarrow> pystr list \<Rightarrow> real list" where
  "histogram h D tokens =
     map (\<lambda>i. real (length (filter (\<lambda>token. h token mod int D = int i) tokens))) [0..<D]"

definition spec_embed :: "(pystr \<Rightarrow> int) \<Rightarrow> nat \<Rightarrow> pystr \<Rightarrow> real list" where
  "spec_embed h D text =
     (let hist = histogram h D (py_split text)
      in if l2_norm hist = 0 then hist else map (\<lambda>x. x / l2_norm hist) hist)"

text \<open>The uniqueness invariant of the table: no two rows share \<open>(item_type, item_id)\<close>.\<close>

definition row_key :: "embedding_row \<Rightarrow> pystr \<times> pystr" where
  "row_key r = (item_type r, item_id r)"

definition unique_keys :: "table \<Rightarrow> bool" where
  "unique_keys tbl = distinct (map row_key tbl)"

definition rows_at :: "pystr \<Rightarrow> pystr \<Rightarrow> table \<Rightarrow> table" where
  "rows_at itype iid tbl = filter (\<lambda>r. row_key r = (itype, iid)) tbl"

text \<open>
  A sequence of store operations, each \<open>(ts, item_type, item_id, text)\<close>, run from left to
  right; the second threads the random generator as \<^verbatim>\<open>EmbeddingService\<close> does.
\<close>

fun store_many :: "(pystr \<Rightarrow> int) \<Rightarrow> (pystr \<times> pystr \<times> pystr \<times> pystr) list \<Rightarrow> table \<Rightarrow> table" where
  "store_many h [] tbl = tbl"
| "store_many h ((ts, itype, iid, text) # ops) tbl =
     store_many h ops (snd (store_embedding h ts itype iid text tbl))"

fun es_store_many ::
  "(pystr \<Rightarrow> real list option) \<Rightarrow> ('g \<Rightarrow> real \<times> 'g) \<Rightarrow> (pystr \<times> pystr \<times> pystr \<times> pystr) list \<Rightarrow>
   table \<Rightarrow> 'g \<Rightarrow> table \<times> 'g" where
  "es_store_many encode rng [] tbl g = (tbl, g)"
| "es_store_many encode rng ((ts, itype, iid, text) # ops) tbl g =
     (case es_store_embedding encode rng ts itype iid text tbl g of
        ((ok, tbl'), g') \<Rightarrow> es_store_many encode rng ops tbl' g')"

text \<open>
  The candidates a search ranks. \<^verbatim>\<open>api_search_similar\<close> drops the rows whose payload does
  not parse and, when \<^verbatim>\<open>summary_id\<close> is given, the summary with that id;
  \<^verbatim>\<open>search_similar_items\<close> drops the rows without text and those whose payload does not parse.
\<close>

definition parsable :: "embedding_row \<Rightarrow> bool" where
  "parsable r \<longleftrightarrow> vector_blob r \<noteq> Unparsable"

definition is_self :: "pystr option \<Rightarrow> embedding_row \<Rightarrow> bool" where
  "is_self sid r \<longleftrightarrow> truthy sid \<and> item_type r = lit ''summary'' \<and> Some (item_id r) = sid"

definition eligible :: "pystr option \<Rightarrow> embedding_row \<Rightarrow> bool" where
  "eligible sid r \<longleftrightarrow> parsable r \<and> \<not> is_self sid r"

definition es_eligible :: "embedding_row \<Rightarrow> bool" where
  "es_eligible r \<longleftrightarrow> truthy (text_content r) \<and> parsable r"

text \<open>
  Values a computed sum of squares, or its root, can take: infinity, zero, or a finite
  number not below \<open>lo\<close>.
\<close>

definition sq_like :: "real \<Rightarrow> pyfloat \<Rightarrow> bool" where
  "sq_like lo p \<longleftrightarrow> p = PInf \<or> (\<exists>s. p = Fin s \<and> (s = 0 \<or> lo \<le> s))"

definition non_increasing :: "pyfloat list \<Rightarrow> bool" where
  "non_increasing xs = sorted_wrt (\<lambda>a b. fle b a) xs"

text \<open>The vector a parsable payload holds.\<close>

definition payload :: "embedding_row \<Rightarrow> real list" where
  "payload r = (case vector_blob r of JsonArray vec \<Rightarrow> vec | Unparsable \<Rightarrow> [])"

text \<open>The entry \<^verbatim>\<open>api_search_similar\<close> builds for a candidate row.\<close>

definition main_item :: "real list \<Rightarrow> embedding_row \<Rightarrow> RelatedItem" where
  "main_item q r =
     \<lparr>rel_item_type = item_type r, rel_item_id = item_id r,
      score = cosine_value q (payload r), rel_text = None\<rparr>"

text \<open>The entry \<^verbatim>\<open>search_similar_items\<close> builds for a row that has text and a parsable payload.\<close>

definition es_item :: "real list \<Rightarrow> embedding_row \<Rightarrow> RelatedItem" where
  "es_item q r =
     \<lparr>rel_item_type = item_type r, rel_item_id = item_id r,
      score = es_cosine_similarity q (payload r),
      rel_text = map_option display_text (text_content r)\<rparr>"

subsection \<open>Concrete inputs\<close>

text \<open>
  Inputs on which the theorems below are instantiated: a table with two summaries, a task
  whose payload does not parse and a task with a parsable payload; a model that always
  answers, a model that always fails, a random generator and a hash function.
\<close>

definition row_s1 :: embedding_row where
  "row_s1 =
     \<lparr>item_type = lit ''summary'', item_id = lit ''s1'', vector_blob = JsonArray [1, 1, 1, 1],
      timestamp = lit ''2025-01-01T00:00:00'', text_content = Some (lit ''hotel booking'')\<rparr>"

definition row_t1 :: embedding_row where
  "row_t1 =
     \<lparr>item_type = lit ''task'', item_id = lit ''t1'', vector_blob = Unparsable,
      timestamp = lit ''2025-01-01T00:00:01'', text_content = Some (lit ''need hotel help'')\<rparr>"

definition row_s2 :: embedding_row where
  "row_s2 =
     \<lparr>item_type = lit ''summary'', item_id = lit ''s2'', vector_blob = JsonArray [1, - 1, 1, - 1],
      timestamp = lit ''2025-01-01T00:00:02'', text_content = Some (lit ''flight boarding pass'')\<rparr>"

definition row_t2 :: embedding_row where
  "row_t2 =
     \<lparr>item_type = lit ''task'', item_id = lit ''t2'', vector_blob = JsonArray [1, 0, 0, 0],
      timestamp = lit ''2025-01-01T00:00:03'', text_content = Some (lit ''hotel and flight'')\<rparr>"

definition example_table :: table where
  "example_table = [row_s1, row_t1, row_s2, row_t2]"



definition example_encode :: "pystr \<Rightarrow> real list option" where
  "example_encode t = Some [1, 1, 1, 1]"


definition counter_rng :: "nat \<Rightarrow> real \<times> nat" where
  "counter_rng g = (1 / real (g + 2), Suc g)"

definition length_hash :: "pystr \<Rightarrow> int" where
  "length_hash token = int (length token)"

text \<open>The hash function of a second interpreter process, with another salt.\<close>

definition shifted_hash :: "pystr \<Rightarrow> int" where
  "shifted_hash token = int (length token) + 1"

definition eleven_ops :: "(pystr \<times> pystr \<times> pystr \<times> pystr) list" where
  "eleven_ops =
     [(lit ''d01'', lit ''task'', lit ''a'', lit ''hotel room''),
      (lit ''d02'', lit ''task'', lit ''b'', lit ''flight to rome''),
      (lit ''d03'', lit ''task'', lit ''c'', lit ''book a table''),
      (lit ''d04'', lit ''task'', lit ''d'', lit ''rent a car''),
      (lit ''d05'', lit ''task'', lit ''e'', lit ''hotel breakfast''),
      (lit ''d06'', lit ''task'', lit ''f'', lit ''train tickets''),
      (lit ''d07'', lit ''task'', lit ''g'', lit ''museum pass''),
      (lit ''d08'', lit ''task'', lit ''h'', lit ''late checkout''),
      (lit ''d09'', lit ''task'', lit ''i'', lit ''airport taxi''),
      (lit ''d10'', lit ''task'', lit ''j'', lit ''travel insurance''),
      (lit ''d11'', lit ''task'', lit ''k'', lit ''hotel spa'')]"

definition eleven_rows :: table where
  "eleven_rows = store_many length_hash eleven_ops []"

section \<open>Properties\<close>

subsection \<open>Rounding\<close>

lemma round_even_ge_floor: "\<lfloor>y\<rfloor> \<le> round_even y"
  by (simp add: round_even_def Let_def)

lemma round_even_le: "round_even y \<le> \<lfloor>y\<rfloor> + 1"
  by (simp add: round_even_def Let_def)

lemma round_even_of_int: "round_even (of_int m) = m"
  by (simp add: round_even_def Let_def)

lemma round_even_nonneg: "0 \<le> y \<Longrightarrow> 0 \<le> round_even y"
  using round_even_ge_floor[of y] by (simp add: order_trans[of 0 "\<lfloor>y\<rfloor>"])

lemma rne_nonneg: "0 \<le> x \<Longrightarrow> 0 \<le> rne x"
  by (simp add: rne_def round_even_nonneg)

lemma ulp_exp_ge: "- 1074 \<le> ulp_exp x"
  by (simp add: ulp_exp_def)

lemma two_powr_nat: "2 powr of_int (int n) = (2::real) ^ n"
  by (simp add: powr_realpow)

lemma two_powr_int_nonneg: "0 \<le> j \<Longrightarrow> (2::real) powr of_int j = of_int (2 ^ nat j)"
  using two_powr_nat[of "nat j"] by simp

lemma rne_zero_or_big:
  assumes "0 \<le> x"
  shows "rne x = 0 \<or> 2 powr (- 1074) \<le> rne x"
proof (cases "x = 0")
  case True then show ?thesis by (simp add: rne_def)
next
  case False
  let ?E = "ulp_exp x"
  let ?m = "round_even (x / 2 powr of_int ?E)"
  have m0: "0 \<le> ?m" using assms by (intro round_even_nonneg) simp
  show ?thesis
  proof (cases "?m = 0")
    case True then show ?thesis using False by (simp add: rne_def)
  next
    case False
    with m0 have "1 \<le> ?m" by simp
    then have "(1::real) \<le> of_int ?m" by simp
    then have a: "(2::real) powr of_int ?E \<le> of_int ?m * 2 powr of_int ?E"
      by (simp add: mult_le_cancel_right1)
    have "(- 1074 :: real) \<le> of_int ?E"
      using ulp_exp_ge[of x] by (metis of_int_le_iff of_int_minus of_int_numeral)
    then have b: "(2::real) powr (- 1074) \<le> 2 powr of_int ?E"
      by (intro powr_mono) simp_all
    have c: "rne x = of_int ?m * 2 powr of_int ?E"
      using \<open>x \<noteq> 0\<close> by (simp add: rne_def)
    show ?thesis using a b c by linarith
  qed
qed

lemma rne_ge_pow2:
  assumes "2 powr of_int k \<le> x" and "- 1074 \<le> k"
  shows "2 powr of_int k \<le> rne x"
proof -
  have xpos: "0 < x" using assms(1) by (rule less_le_trans[rotated]) simp
  define n where "n = \<lfloor>log 2 x\<rfloor>"
  define E where "E = ulp_exp x"
  have "of_int k \<le> log 2 x" using assms(1) xpos by (simp add: le_log_iff)
  then have kn: "k \<le> n" by (simp add: le_floor_iff n_def)
  have E: "E = max (n - 52) (- 1074)" using xpos by (simp add: ulp_exp_def E_def n_def)
  have xn: "2 powr of_int n \<le> x"
    using xpos by (simp add: powr_le_iff n_def)
  define b where "b = (if n - 52 \<ge> - 1074 then n else k)"
  have bE: "E \<le> b" "k \<le> b"
    using E assms(2) kn by (auto simp: b_def)
  have bx: "2 powr of_int b \<le> x"
    using xn assms(1) by (auto simp: b_def)
  have "(2::real) powr of_int (b - E) \<le> x / 2 powr of_int E"
    using bx by (simp add: powr_diff divide_right_mono)
  moreover have p: "(2::real) powr of_int (b - E) = of_int (2 ^ nat (b - E))"
    using bE(1) by (intro two_powr_int_nonneg) simp
  ultimately have "2 ^ nat (b - E) \<le> \<lfloor>x / 2 powr of_int E\<rfloor>"
    by (simp add: le_floor_iff)
  then have "2 ^ nat (b - E) \<le> round_even (x / 2 powr of_int E)"
    using round_even_ge_floor[of "x / 2 powr of_int E"] by linarith
  then have "of_int (2 ^ nat (b - E)) \<le> (of_int (round_even (x / 2 powr of_int E)) :: real)"
    by (simp only: of_int_le_iff)
  then have "(2::real) powr of_int (b - E) \<le> of_int (round_even (x / 2 powr of_int E))"
    unfolding p .
  then have "(2::real) powr of_int (b - E) * 2 powr of_int E \<le> rne x"
    using xpos by (simp add: rne_def mult_right_mono E_def)
  moreover have "(2::real) powr of_int (b - E) * 2 powr of_int E = 2 powr of_int b"
    by (simp add: powr_add[symmetric])
  ultimately have "2 powr of_int b \<le> rne x"
    by simp
  moreover have "(2::real) powr of_int k \<le> 2 powr of_int b"
    using bE(2) by (simp add: powr_mono)
  ultimately show ?thesis by linarith
qed

lemma ulp_exp_eq:
  assumes "2 powr of_int k \<le> \<bar>x\<bar>" "\<bar>x\<bar> < 2 powr of_int (k + 1)"
  shows "ulp_exp x = max (k - 52) (- 1074)"
proof -
  have pos: "0 < \<bar>x\<bar>" using assms(1) by (rule less_le_trans[rotated]) simp
  have "of_int k \<le> log 2 \<bar>x\<bar>" using assms(1) pos by (simp add: le_log_iff)
  moreover have "log 2 \<bar>x\<bar> < of_int (k + 1)" using assms(2) pos by (simp add: log_less_iff)
  ultimately have "\<lfloor>log 2 \<bar>x\<bar>\<rfloor> = k" by (intro floor_unique) simp_all
  then show ?thesis by (simp add: ulp_exp_def)
qed

lemma rne_exact:
  assumes "x \<noteq> 0" "x / 2 powr of_int (ulp_exp x) = of_int m"
  shows "rne x = x"
proof -
  have "rne x = of_int m * 2 powr of_int (ulp_exp x)"
    using assms by (simp add: rne_def round_even_of_int)
  also have "\<dots> = x" using assms(2)[symmetric] by simp
  finally show ?thesis .
qed

lemma rne_two_powr:
  assumes "- 1074 \<le> k"
  shows "rne (2 powr of_int k) = 2 powr of_int k"
proof -
  let ?x = "(2::real) powr of_int k"
  have u: "ulp_exp ?x = max (k - 52) (- 1074)"
    by (rule ulp_exp_eq) (simp_all add: powr_less_cancel_iff)
  define E where "E = max (k - 52) (- 1074)"
  have "E \<le> k" using assms by (simp add: E_def)
  then have "?x / 2 powr of_int E = of_int (2 ^ nat (k - E))"
    using two_powr_int_nonneg[of "k - E"] by (simp add: powr_diff)
  then show ?thesis
    by (intro rne_exact[where m = "2 ^ nat (k - E)"]) (simp_all add: u E_def)
qed

lemma fl_two_powr:
  assumes "- 1074 \<le> k" "k \<le> 1023"
  shows "fl (2 powr of_int k) = Fin (2 powr of_int k)"
proof -
  have "(2::real) powr of_int k \<le> 2 powr of_int 1023"
    using assms(2) by (intro powr_mono) simp_all
  also have "\<dots> = 2 ^ 1023" using two_powr_nat[of 1023] by simp
  also have "\<dots> \<le> max_double" by (simp add: max_double_def)
  finally have "2 powr of_int k \<le> max_double" .
  moreover have "- max_double \<le> 2 powr of_int k"
    by (rule order_trans[of _ 0]) (simp_all add: max_double_def)
  ultimately show ?thesis
    using rne_two_powr[OF assms(1)] by (simp add: fl_def Let_def)
qed



lemma fl_0: "fl 0 = Fin 0"
  by (simp add: fl_def rne_def max_double_def)

lemma fl_pow2_values:
  "fl 1 = Fin 1" "fl 2 = Fin 2" "fl 4 = Fin 4" "fl (1 / 2) = Fin (1 / 2)"
  using fl_two_powr[of 0] fl_two_powr[of 1] fl_two_powr[of 2] fl_two_powr[of "- 1"]
  by (simp_all add: powr_minus divide_simps)

lemma fl_3: "fl 3 = Fin 3"
proof -
  have u: "ulp_exp 3 = - 51" using ulp_exp_eq[of 1 3] by simp
  have "(3::real) / 2 powr of_int (- 51) = of_int (3 * 2 ^ 51)"
    using two_powr_nat[of 51] by (simp add: powr_minus divide_simps)
  then have "rne 3 = 3" by (intro rne_exact[where m = "3 * 2 ^ 51"]) (simp_all add: u)
  then show ?thesis by (simp add: fl_def Let_def max_double_def)
qed

subsection \<open>The divisor of the cosine is never zero\<close>

lemma fl_nonneg_cases:
  assumes "0 \<le> x"
  shows "fl x = PInf \<or> fl x = Fin (rne x)"
  using rne_nonneg[OF assms] by (auto simp: fl_def Let_def max_double_def)

lemma sq_like_fl: "0 \<le> x \<Longrightarrow> sq_like (2 powr (- 1074)) (fl x)"
  using fl_nonneg_cases[of x] rne_zero_or_big[of x] by (auto simp: sq_like_def)

lemma tiny_pos: "(0::real) < 2 powr (- 1074)"
  by simp

lemma sq_like_fadd:
  assumes "sq_like (2 powr (- 1074)) p" "sq_like (2 powr (- 1074)) q"
  shows "sq_like (2 powr (- 1074)) (fadd p q)"
proof -
  consider "p = PInf" | "q = PInf" "p \<noteq> PInf" | s t where "p = Fin s" "q = Fin t" "0 \<le> s" "0 \<le> t"
    using assms tiny_pos unfolding sq_like_def by (smt (verit))
  then show ?thesis
  proof cases
    case 1
    then show ?thesis using assms(2) by (auto simp: sq_like_def)
  next
    case 2
    then show ?thesis using assms(1) by (auto simp: sq_like_def)
  next
    case 3
    then show ?thesis using sq_like_fl[of "s + t"] by simp
  qed
qed

lemma sq_like_foldl:
  "sq_like (2 powr (- 1074)) acc \<Longrightarrow> \<forall>p\<in>set ps. sq_like (2 powr (- 1074)) p \<Longrightarrow>
   sq_like (2 powr (- 1074)) (foldl fadd acc ps)"
  by (induction ps arbitrary: acc) (simp_all add: sq_like_fadd)

lemma sq_like_sum_squares: "sq_like (2 powr (- 1074)) (fsum (map (\<lambda>a. fmul (Fin a) (Fin a)) v))"
  unfolding fsum_def
  by (rule sq_like_foldl) (auto simp: sq_like_def intro!: sq_like_fl[unfolded sq_like_def])

lemma sqrt_tiny: "sqrt (2 powr (- 1074)) = 2 powr (- 537)"
proof -
  have "sqrt (2 powr (- 1074)) = (2 powr (- 1074)) powr (1 / 2)"
    by (simp add: powr_half_sqrt)
  also have "\<dots> = 2 powr (- 537)" by (simp add: powr_powr)
  finally show ?thesis .
qed

lemma sq_like_fnorm: "sq_like (2 powr (- 537)) (fnorm v)"
proof -
  from sq_like_sum_squares[of v]
  consider "fsum (map (\<lambda>a. fmul (Fin a) (Fin a)) v) = PInf"
    | "fsum (map (\<lambda>a. fmul (Fin a) (Fin a)) v) = Fin 0"
    | s where "fsum (map (\<lambda>a. fmul (Fin a) (Fin a)) v) = Fin s" "2 powr (- 1074) \<le> s"
    unfolding sq_like_def by blast
  then show ?thesis
  proof cases
    case 1 then show ?thesis by (simp add: fnorm_def sq_like_def)
  next
    case 2
    have "fl 0 = Fin 0" by (simp add: fl_def rne_def max_double_def)
    with 2 show ?thesis by (simp add: fnorm_def sq_like_def)
  next
    case 3
    have s0: "0 \<le> s" using 3(2) tiny_pos by linarith
    have "2 powr (- 537) \<le> sqrt s"
      using 3(2) sqrt_tiny real_sqrt_le_mono[of "2 powr (- 1074)" s] by simp
    then have "2 powr of_int (- 537) \<le> sqrt s" by simp
    then have "2 powr of_int (- 537) \<le> rne (sqrt s)" by (rule rne_ge_pow2) simp
    then have "2 powr (- 537) \<le> rne (sqrt s)" by simp
    with fl_nonneg_cases[of "sqrt s"] 3(1) s0 show ?thesis
      by (auto simp: fnorm_def sq_like_def)
  qed
qed

lemma fmul_norms_nonzero:
  assumes "sq_like (2 powr (- 537)) p" "sq_like (2 powr (- 537)) q" "p \<noteq> Fin 0" "q \<noteq> Fin 0"
  shows "fmul p q \<noteq> Fin 0"
proof -
  have pos: "(0::real) < 2 powr (- 537)" by simp
  from assms(1,3) consider "p = PInf" | s where "p = Fin s" "2 powr (- 537) \<le> s"
    unfolding sq_like_def by blast
  then show ?thesis
  proof cases
    case 1
    from assms(2,4) consider "q = PInf" | t where "q = Fin t" "2 powr (- 537) \<le> t"
      unfolding sq_like_def by blast
    then show ?thesis
    proof cases
      case 1 with \<open>p = PInf\<close> show ?thesis by simp
    next
      case 2
      then have "0 < t" using pos by linarith
      with 2 \<open>p = PInf\<close> show ?thesis by simp
    qed
  next
    case 2
    then have spos: "0 < s" using pos by linarith
    from assms(2,4) consider "q = PInf" | t where "q = Fin t" "2 powr (- 537) \<le> t"
      unfolding sq_like_def by blast
    then show ?thesis
    proof cases
      case 1 with 2 spos show ?thesis by simp
    next
      case B: 2
      have "2 powr (- 537) * 2 powr (- 537) \<le> s * t"
        using 2(2) B(2) pos spos by (intro mult_mono) simp_all
      moreover have "(2::real) powr (- 537) * 2 powr (- 537) = 2 powr of_int (- 1074)"
        by (simp add: powr_add[symmetric])
      ultimately have "2 powr of_int (- 1074) \<le> s * t" by simp
      then have "2 powr of_int (- 1074) \<le> rne (s * t)" by (rule rne_ge_pow2) simp
      moreover have "(0::real) < 2 powr of_int (- 1074)" by simp
      ultimately have r: "0 < rne (s * t)" by linarith
      have "0 \<le> s * t" using spos B(2) pos by (intro mult_nonneg_nonneg) linarith+
      from fl_nonneg_cases[OF this] r 2(1) B(1) show ?thesis by auto
    qed
  qed
qed

lemma divisor_nonzero:
  "fnorm v \<noteq> Fin 0 \<Longrightarrow> fnorm w \<noteq> Fin 0 \<Longrightarrow> fmul (fnorm v) (fnorm w) \<noteq> Fin 0"
  by (rule fmul_norms_nonzero[OF sq_like_fnorm sq_like_fnorm])

lemma cosine_similarity_eq: "cosine_similarity v w = Inr (cosine_value v w)"
  using divisor_nonzero[of v w]
  by (auto simp: cosine_similarity_def cosine_value_def Let_def py_truediv_def)



subsection \<open>Sorting and slicing\<close>

lemma fle_total: "a \<noteq> NaN \<Longrightarrow> b \<noteq> NaN \<Longrightarrow> \<not> flt a b \<Longrightarrow> fle b a"
  by (cases a; cases b) simp_all

lemma flt_imp_fle: "flt a b \<Longrightarrow> fle a b"
  by (cases a; cases b) simp_all

lemma fle_trans: "fle a b \<Longrightarrow> fle b c \<Longrightarrow> fle a c"
  by (cases a; cases b; cases c) simp_all

lemma mset_insert_desc: "mset (insert_desc key x ys) = add_mset x (mset ys)"
  by (induction ys) simp_all

lemma mset_sort_desc: "mset (sort_desc key xs) = mset xs"
  unfolding sort_desc_def by (induction xs) (simp_all add: mset_insert_desc)

lemma length_sort_desc: "length (sort_desc key xs) = length xs"
  using mset_sort_desc[of key xs] by (metis size_mset)

lemma set_sort_desc: "set (sort_desc key xs) = set xs"
  using mset_sort_desc[of key xs] by (metis set_mset_mset)

lemma sorted_insert_desc:
  assumes "sorted_wrt (\<lambda>a b. fle (key b) (key a)) ys"
    and "key x \<noteq> NaN" and "\<forall>y\<in>set ys. key y \<noteq> NaN"
  shows "sorted_wrt (\<lambda>a b. fle (key b) (key a)) (insert_desc key x ys)"
  using assms
proof (induction ys)
  case Nil
  then show ?case by simp
next
  case (Cons y ys)
  show ?case
  proof (cases "flt (key x) (key y)")
    case True
    have "set (insert_desc key x ys) = insert x (set ys)"
      using mset_insert_desc[of key x ys] by (metis set_mset_mset set_mset_add_mset_insert)
    with True Cons show ?thesis by (auto dest: flt_imp_fle)
  next
    case False
    with Cons.prems have xy: "fle (key y) (key x)" by (intro fle_total) simp_all
    have "fle (key z) (key x)" if "z \<in> set ys" for z
      using Cons.prems(1) that xy by (auto intro: fle_trans)
    with False xy Cons.prems(1) show ?thesis by simp
  qed
qed

lemma sorted_sort_desc:
  "\<forall>x\<in>set xs. key x \<noteq> NaN \<Longrightarrow> sorted_wrt (\<lambda>a b. fle (key b) (key a)) (sort_desc key xs)"
proof (induction xs)
  case Nil
  show ?case by (simp add: sort_desc_def)
next
  case (Cons x xs)
  have "sorted_wrt (\<lambda>a b. fle (key b) (key a)) (insert_desc key x (sort_desc key xs))"
    using Cons by (intro sorted_insert_desc) (simp_all add: set_sort_desc)
  then show ?case by (simp add: sort_desc_def)
qed

lemma non_increasing_sort_desc:
  "\<forall>x\<in>set xs. key x \<noteq> NaN \<Longrightarrow> non_increasing (map key (sort_desc key xs))"
  using sorted_sort_desc[of xs key] by (simp add: non_increasing_def sorted_wrt_map)

lemma non_increasing_take: "non_increasing xs \<Longrightarrow> non_increasing (take n xs)"
  unfolding non_increasing_def by (rule sorted_wrt_take)

lemma py_slice_to_nonneg: "0 \<le> k \<Longrightarrow> py_slice_to k xs = take (nat k) xs"
  by (simp add: py_slice_to_def)

lemma set_py_slice_to: "set (py_slice_to k xs) \<subseteq> set xs"
  unfolding py_slice_to_def by (auto dest: in_set_takeD)

text \<open>
  A slice of the sorted list, followed by what it leaves out, is the sorted list: the
  sliced elements are the top of a sorted arrangement of all elements.
\<close>

lemma top_of_sorted:
  assumes "0 \<le> k"
  shows "\<exists>rest. mset (py_slice_to k (sort_desc key xs) @ rest) = mset xs \<and>
               py_slice_to k (sort_desc key xs) @ rest = sort_desc key xs"
proof -
  have "take (nat k) (sort_desc key xs) @ drop (nat k) (sort_desc key xs) = sort_desc key xs"
    by simp
  then show ?thesis
    using assms mset_sort_desc[of key xs] by (metis py_slice_to_nonneg)
qed

subsection \<open>Exact arithmetic\<close>

lemma sum_sq_l2: "sqrt (sum_sq v) = l2_norm v"
  unfolding sum_sq_def l2_norm_def by (simp add: power2_eq_square)

lemma l2_norm_nonneg: "0 \<le> l2_norm v"
proof -
  have "0 \<le> (\<Sum>x\<leftarrow>v. x\<^sup>2)" by (rule sum_list_nonneg) auto
  then show ?thesis unfolding l2_norm_def by simp
qed

lemma l2_norm_zero_iff: "l2_norm v = 0 \<longleftrightarrow> (\<forall>x\<in>set v. x = 0)"
proof -
  have "(\<Sum>x\<leftarrow>v. x\<^sup>2) = 0 \<longleftrightarrow> (\<forall>x\<in>set v. x = 0)"
    by (subst sum_list_nonneg_eq_0_iff) auto
  then show ?thesis unfolding l2_norm_def by simp
qed



subsection \<open>Hashing embedding\<close>

lemma py_incr_at_mod:
  assumes "0 < dm" "length vec = nat dm"
  shows "py_incr_at vec (x mod dm) = Inr (vec[nat (x mod dm) := vec ! nat (x mod dm) + 1])"
proof -
  have "0 \<le> x mod dm" "x mod dm < dm" using assms(1) by simp_all
  moreover from this have "\<not> x mod dm < 0" by linarith
  ultimately show ?thesis using assms unfolding py_incr_at_def Let_def by simp
qed

lemma accumulate_counts:
  assumes "0 < dm" "length vec = nat dm"
  shows "accumulate h dm vec tokens =
         Inr (map (\<lambda>i. vec ! i + real (length (filter (\<lambda>token. h token mod dm = int i) tokens)))
                [0..<nat dm])"
  using assms(2)
proof (induction tokens arbitrary: vec)
  case Nil
  then show ?case using map_nth[of vec] by simp
next
  case (Cons token tokens)
  let ?j = "nat (h token mod dm)"
  let ?vec' = "vec[?j := vec ! ?j + 1]"
  have j: "0 \<le> h token mod dm" "h token mod dm < dm" using assms(1) by simp_all
  have len: "length ?vec' = nat dm" using Cons.prems by simp
  have step: "accumulate h dm vec (token # tokens) = accumulate h dm ?vec' tokens"
    using assms(1) py_incr_at_mod[OF assms(1) Cons.prems, of "h token"] by simp
  have "map (\<lambda>i. ?vec' ! i + real (length (filter (\<lambda>t. h t mod dm = int i) tokens))) [0..<nat dm]
      = map (\<lambda>i. vec ! i + real (length (filter (\<lambda>t. h t mod dm = int i) (token # tokens)))) [0..<nat dm]"
  proof (rule map_cong[OF refl])
    fix i assume "i \<in> set [0..<nat dm]"
    then have i: "i < length vec" using Cons.prems by simp
    have eq: "(h token mod dm = int i) = (i = ?j)" using j by auto
    show "?vec' ! i + real (length (filter (\<lambda>t. h t mod dm = int i) tokens))
        = vec ! i + real (length (filter (\<lambda>t. h t mod dm = int i) (token # tokens)))"
      using i eq by (cases "i = ?j") simp_all
  qed
  with step Cons.IH[OF len] show ?case by simp
qed

lemma accumulate_histogram:
  "0 < D \<Longrightarrow> accumulate h (int D) (replicate D 0) tokens = Inr (histogram h D tokens)"
  using accumulate_counts[of "int D" "replicate D 0" h tokens]
  by (simp add: histogram_def)

lemma l2_normalize_spec:
  "l2_normalize hist = (if l2_norm hist = 0 then hist else map (\<lambda>x. x / l2_norm hist) hist)"
  using l2_norm_nonneg[of hist] unfolding l2_normalize_def Let_def sum_sq_l2 by auto

lemma text_to_vector_spec: "0 < D \<Longrightarrow> text_to_vector h text (int D) = Inr (spec_embed h D text)"
  unfolding text_to_vector_def spec_embed_def Let_def
  by (simp add: accumulate_histogram l2_normalize_spec)

lemma length_spec_embed: "length (spec_embed h D text) = D"
  unfolding spec_embed_def Let_def histogram_def by simp

lemma text_to_vector_DIM: "text_to_vector h text DIM = Inr (spec_embed h 64 text)"
  using text_to_vector_spec[of 64 h "text"] by (simp add: DIM_def)

lemma length_lit: "length (lit s) = length s"
  by (simp add: lit_def)

lemma lit_eq_iff: "lit s = lit t \<longleftrightarrow> s = t"
  unfolding lit_def by (rule inj_map_eq_map) (rule injI, simp)

lemma lit_Nil_iff: "lit s = [] \<longleftrightarrow> s = []"
  by (simp add: lit_def)

lemma py_split_example: "py_split (lit ''a bc  a'') = [lit ''a'', lit ''bc'', lit ''a'']"
  by (simp add: py_split_def lit_def py_isspace_def)

lemma l2_norm_1_2: "l2_norm [1, 2] = sqrt 5"
  by (simp add: l2_norm_def)

subsection \<open>Random fallback\<close>


subsection \<open>Upsert\<close>

lemma unique_keys_insert_or_replace: "unique_keys tbl \<Longrightarrow> unique_keys (insert_or_replace row tbl)"
  unfolding unique_keys_def insert_or_replace_def
  by (auto simp: distinct_map_filter same_key_def row_key_def)

lemma rows_at_insert_or_replace:
  "rows_at itype iid (insert_or_replace row tbl) =
     (if row_key row = (itype, iid) then [row] else rows_at itype iid tbl)"
proof -
  have a: "filter (\<lambda>r. row_key r = (itype, iid)) (filter (\<lambda>r. \<not> same_key r row) tbl) = []"
    if "row_key row = (itype, iid)"
    using that by (auto simp: filter_empty_conv same_key_def row_key_def)
  have b: "filter (\<lambda>r. row_key r = (itype, iid)) (filter (\<lambda>r. \<not> same_key r row) tbl)
         = filter (\<lambda>r. row_key r = (itype, iid)) tbl"
    if "row_key row \<noteq> (itype, iid)"
    using that by (auto simp: same_key_def row_key_def intro!: filter_cong)
  show ?thesis
    unfolding rows_at_def insert_or_replace_def using a b by auto
qed

lemma store_embedding_eq:
  "store_embedding h ts itype iid t tbl =
     (True, insert_or_replace
              \<lparr>item_type = itype, item_id = iid, vector_blob = json_dumps (spec_embed h 64 t),
               timestamp = ts, text_content = None\<rparr> tbl)"
  by (simp add: store_embedding_def text_to_vector_DIM)

lemma es_store_embedding_eq:
  "es_store_embedding encode rng ts itype iid t tbl g =
     ((True, insert_or_replace
               \<lparr>item_type = itype, item_id = iid,
                vector_blob = json_dumps (fst (generate_embedding encode rng t g)),
                timestamp = ts, text_content = Some t\<rparr> tbl),
      snd (generate_embedding encode rng t g))"
  by (simp add: es_store_embedding_def split: prod.split)

lemma unique_keys_store_many: "unique_keys tbl \<Longrightarrow> unique_keys (store_many h ops tbl)"
  by (induction h ops tbl rule: store_many.induct)
     (simp_all add: store_embedding_eq unique_keys_insert_or_replace)

lemma unique_keys_es_store_many:
  "unique_keys tbl \<Longrightarrow> unique_keys (fst (es_store_many encode rng ops tbl g))"
  by (induction encode rng ops tbl g rule: es_store_many.induct)
     (simp_all add: es_store_embedding_eq unique_keys_insert_or_replace)

subsection \<open>The scan and the ranking of \<^verbatim>\<open>main.py\<close>\<close>

lemma json_loads_parsable:
  "json_loads (vector_blob r) = (if parsable r then Inr (payload r) else Inl ValueError)"
  by (cases "vector_blob r") (simp_all add: parsable_def payload_def)

lemma get_all_embeddings_eq:
  "get_all_embeddings tbl = map (\<lambda>r. (item_type r, item_id r, payload r)) (filter parsable tbl)"
  by (induction tbl) (simp_all add: json_loads_parsable)

lemma score_candidates_eq:
  "score_candidates sid q (map (\<lambda>r. (item_type r, item_id r, payload r)) rows) =
   Inr (map (\<lambda>r. (item_type r, item_id r, cosine_value q (payload r)))
          (filter (\<lambda>r. \<not> is_self sid r) rows))"
  by (induction rows) (simp_all add: is_self_def cosine_similarity_eq)

lemma scored_eq:
  "score_candidates sid q (get_all_embeddings tbl) =
   Inr (map (\<lambda>r. (item_type r, item_id r, cosine_value q (payload r))) (filter (eligible sid) tbl))"
proof -
  have "filter (\<lambda>r. \<not> is_self sid r) (filter parsable tbl) = filter (eligible sid) tbl"
    by (simp add: eligible_def[abs_def] conj_commute)
  then show ?thesis by (simp add: get_all_embeddings_eq score_candidates_eq)
qed

lemma query_vec_Inr: "\<exists>qo. query_vec h req tbl = Inr qo"
  unfolding query_vec_def by (simp add: text_to_vector_DIM split: option.split)

lemma query_vec_message:
  "m \<noteq> [] \<Longrightarrow> message_text req = Some m \<Longrightarrow> query_vec h req tbl = Inr (Some (spec_embed h 64 m))"
  unfolding query_vec_def by (simp add: text_to_vector_DIM)

lemma query_vec_reference:
  "\<not> truthy (message_text req) \<Longrightarrow> summary_id req = Some x \<Longrightarrow> x \<noteq> [] \<Longrightarrow>
   query_vec h req tbl = Inr (get_embedding (lit ''summary'') x tbl)"
  unfolding query_vec_def by (cases "message_text req") simp_all

lemma map_insert_desc:
  "map f (insert_desc (\<lambda>a. key (f a)) x ys) = insert_desc key (f x) (map f ys)"
  by (induction ys) simp_all

lemma map_sort_desc: "map f (sort_desc (\<lambda>a. key (f a)) xs) = sort_desc key (map f xs)"
  unfolding sort_desc_def by (induction xs) (simp_all add: map_insert_desc)

lemma map_py_slice_to: "map f (py_slice_to k xs) = py_slice_to k (map f xs)"
  by (simp add: py_slice_to_def take_map)

lemma to_related_scored:
  "map to_related
     (py_slice_to k
        (sort_desc (\<lambda>x. snd (snd x))
           (map (\<lambda>r. (item_type r, item_id r, cosine_value q (payload r))) rows))) =
   py_slice_to k (sort_desc score (map (main_item q) rows))"
proof -
  have a: "(\<lambda>x. snd (snd x)) = (\<lambda>x. score (to_related x))"
    by (auto simp: to_related_def fun_eq_iff)
  have b: "map to_related (map (\<lambda>r. (item_type r, item_id r, cosine_value q (payload r))) rows)
         = map (main_item q) rows"
    by (simp add: to_related_def main_item_def)
  show ?thesis
    unfolding a map_py_slice_to map_sort_desc b ..
qed

lemma api_search_similar_eq:
  assumes "truthy (summary_id req) \<or> truthy (message_text req)"
    and "query_vec h req tbl = Inr qo"
  shows "api_search_similar h req tbl =
         Inr (case qo of
                None \<Rightarrow> []
              | Some q \<Rightarrow>
                  py_slice_to (max 1 (min (top_k req) 10))
                    (sort_desc score (map (main_item q) (filter (eligible (summary_id req)) tbl))))"
  using assms unfolding api_search_similar_def
  by (auto simp: scored_eq to_related_scored split: option.split)

lemma api_search_similar_unresolved:
  assumes "truthy (summary_id req) \<or> truthy (message_text req)"
    and "query_vec h req tbl = Inr None"
  shows "api_search_similar h req tbl = Inr []"
  using api_search_similar_eq[OF assms] by simp

lemma api_search_similar_Inr:
  assumes "truthy (summary_id req) \<or> truthy (message_text req)"
  shows "\<exists>rs. api_search_similar h req tbl = Inr rs"
proof -
  obtain qo where "query_vec h req tbl = Inr qo" using query_vec_Inr by blast
  from api_search_similar_eq[OF assms this] show ?thesis by blast
qed

subsection \<open>The scan and the ranking of \<^verbatim>\<open>EmbeddingService\<close>\<close>

lemma similarities_eq: "similarities q tbl = map (es_item q) (filter es_eligible tbl)"
  by (induction tbl)
     (auto simp: es_eligible_def es_item_def json_loads_parsable split: option.split)


lemma search_similar_items_eq:
  "search_similar_items encode rng qt sid k tbl g =
     (case es_query_text qt sid tbl of
        None \<Rightarrow> ([], g)
      | Some t \<Rightarrow>
          (py_slice_to k
             (sort_desc score (map (es_item (fst (generate_embedding encode rng t g)))
                                 (filter es_eligible tbl))),
           snd (generate_embedding encode rng t g)))"
  unfolding search_similar_items_def
  by (simp add: similarities_eq split: option.split prod.split)



subsection \<open>The top of a ranking\<close>

lemma ranked_top:
  assumes "0 \<le> k"
  shows "length (py_slice_to k (sort_desc score cands)) = min (nat k) (length cands)"
    and "\<exists>rest. mset (py_slice_to k (sort_desc score cands) @ rest) = mset cands \<and>
               ((\<forall>c\<in>set cands. score c \<noteq> NaN) \<longrightarrow>
                  non_increasing (map score (py_slice_to k (sort_desc score cands) @ rest)))"
proof -
  show "length (py_slice_to k (sort_desc score cands)) = min (nat k) (length cands)"
    using assms by (simp add: py_slice_to_nonneg length_sort_desc min.commute)
  obtain rest where
    r: "mset (py_slice_to k (sort_desc score cands) @ rest) = mset cands"
       "py_slice_to k (sort_desc score cands) @ rest = sort_desc score cands"
    using top_of_sorted[OF assms, of score cands] by blast
  have "non_increasing (map score (py_slice_to k (sort_desc score cands) @ rest))"
    if "\<forall>c\<in>set cands. score c \<noteq> NaN"
    unfolding r(2) using that by (rule non_increasing_sort_desc)
  with r(1) show "\<exists>rest. mset (py_slice_to k (sort_desc score cands) @ rest) = mset cands \<and>
               ((\<forall>c\<in>set cands. score c \<noteq> NaN) \<longrightarrow>
                  non_increasing (map score (py_slice_to k (sort_desc score cands) @ rest)))"
    by blast
qed

subsection \<open>Evaluation on the concrete inputs\<close>

lemmas example_rows = row_s1_def row_t1_def row_s2_def row_t2_def

lemma fl_minus_1: "fl (- 1) = Fin (- 1)"
proof -
  have u: "ulp_exp (- 1) = - 52" using ulp_exp_eq[of 0 "- 1"] by simp
  have "(- 1 :: real) / 2 powr of_int (- 52) = of_int (- (2 ^ 52))"
    using two_powr_nat[of 52] by (simp add: powr_minus divide_simps)
  then have "rne (- 1) = - 1" by (intro rne_exact[where m = "- (2 ^ 52)"]) (simp_all add: u)
  then show ?thesis by (simp add: fl_def Let_def max_double_def)
qed

lemmas fl_values = fl_0 fl_pow2_values fl_3 fl_minus_1

lemma fnorm_examples:
  "fnorm [1, 1, 1, 1] = Fin 2" "fnorm [1, - 1, 1, - 1] = Fin 2" "fnorm [1, 0, 0, 0] = Fin 1"
  by (simp_all add: fnorm_def fsum_def fl_values)

lemma fdot_examples:
  "fdot [1, 1, 1, 1] [1, 1, 1, 1] = Fin 4" "fdot [1, 1, 1, 1] [1, - 1, 1, - 1] = Fin 0"
  "fdot [1, 1, 1, 1] [1, 0, 0, 0] = Fin 1"
  by (simp_all add: fdot_def fsum_def fl_values)

lemma cosine_value_examples:
  "cosine_value [1, 1, 1, 1] [1, 1, 1, 1] = Fin 1"
  "cosine_value [1, 1, 1, 1] [1, - 1, 1, - 1] = Fin 0"
  "cosine_value [1, 1, 1, 1] [1, 0, 0, 0] = Fin (1 / 2)"
  by (simp_all add: cosine_value_def fnorm_examples fdot_examples fl_values)






lemma payload_examples:
  "payload row_s1 = [1, 1, 1, 1]" "payload row_s2 = [1, - 1, 1, - 1]" "payload row_t2 = [1, 0, 0, 0]"
  by (simp_all add: payload_def example_rows)

lemma eligible_example_table:
  "filter (eligible (Some (lit ''s1''))) example_table = [row_s2, row_t2]"
  "filter (eligible (Some (lit ''s9''))) example_table = [row_s1, row_s2, row_t2]"
  "filter (eligible None) example_table = [row_s1, row_s2, row_t2]"
  "filter es_eligible example_table = [row_s1, row_s2, row_t2]"
  "filter parsable example_table = [row_s1, row_s2, row_t2]"
  by (simp_all add: example_table_def eligible_def es_eligible_def parsable_def is_self_def
      lit_eq_iff lit_Nil_iff example_rows)

lemma unique_keys_example_table: "unique_keys example_table"
  by (simp add: unique_keys_def example_table_def row_key_def example_rows lit_eq_iff)

lemma get_embedding_example:
  "get_embedding (lit ''summary'') (lit ''s1'') example_table = Some [1, 1, 1, 1]"
  "get_embedding (lit ''summary'') (lit ''s9'') example_table = None"
  by (simp_all add: get_embedding_def db_query_one_def example_table_def lit_eq_iff example_rows)

lemma query_vec_example:
  "query_vec h \<lparr>summary_id = Some (lit ''s1''), message_text = None, top_k = k\<rparr> example_table =
     Inr (Some [1, 1, 1, 1])"
  "query_vec h \<lparr>summary_id = Some (lit ''s9''), message_text = None, top_k = k\<rparr> example_table =
     Inr None"
  using query_vec_reference[of "\<lparr>summary_id = Some (lit ''s1''), message_text = None, top_k = k\<rparr>"
      "lit ''s1''" h example_table]
    query_vec_reference[of "\<lparr>summary_id = Some (lit ''s9''), message_text = None, top_k = k\<rparr>"
      "lit ''s9''" h example_table]
  by (simp_all add: get_embedding_example lit_Nil_iff)

lemma main_items:
  "main_item [1, 1, 1, 1] row_s2 =
     \<lparr>rel_item_type = lit ''summary'', rel_item_id = lit ''s2'', score = Fin 0, rel_text = None\<rparr>"
  "main_item [1, 1, 1, 1] row_t2 =
     \<lparr>rel_item_type = lit ''task'', rel_item_id = lit ''t2'', score = Fin (1 / 2), rel_text = None\<rparr>"
  unfolding main_item_def payload_examples cosine_value_examples
  by (simp_all add: example_rows)

lemma api_search_similar_example:
  "api_search_similar h \<lparr>summary_id = Some (lit ''s1''), message_text = None, top_k = k\<rparr>
     example_table =
   Inr (take (nat (max 1 (min k 10)))
     [\<lparr>rel_item_type = lit ''task'', rel_item_id = lit ''t2'', score = Fin (1 / 2), rel_text = None\<rparr>,
      \<lparr>rel_item_type = lit ''summary'', rel_item_id = lit ''s2'', score = Fin 0, rel_text = None\<rparr>])"
proof -
  let ?req = "\<lparr>summary_id = Some (lit ''s1''), message_text = None, top_k = k\<rparr>"
  have t: "truthy (summary_id ?req) \<or> truthy (message_text ?req)"
    by (simp add: lit_Nil_iff)
  show ?thesis
    unfolding api_search_similar_eq[OF t query_vec_example(1)]
    by (simp add: eligible_example_table main_items sort_desc_def py_slice_to_def)
qed






lemma eleven_rows_eligible: "length (filter (eligible None) eleven_rows) = 11"
  by (simp add: eleven_rows_def eleven_ops_def store_embedding_eq insert_or_replace_def
      same_key_def eligible_def parsable_def is_self_def json_dumps_def lit_eq_iff)

lemma eleven_rows_search:
  "\<exists>rs. api_search_similar length_hash
          \<lparr>summary_id = None, message_text = Some (lit ''hotel''), top_k = k\<rparr> eleven_rows = Inr rs \<and>
        length rs = min (nat (max 1 (min k 10))) 11"
proof -
  let ?req = "\<lparr>summary_id = None, message_text = Some (lit ''hotel''), top_k = k\<rparr>"
  have q: "query_vec length_hash ?req eleven_rows = Inr (Some (spec_embed length_hash 64 (lit ''hotel'')))"
    by (rule query_vec_message) (simp_all add: lit_Nil_iff)
  have t: "truthy (summary_id ?req) \<or> truthy (message_text ?req)"
    by (simp add: lit_Nil_iff)
  have k: "0 \<le> max 1 (min k 10)" by simp
  show ?thesis
    unfolding api_search_similar_eq[OF t q]
    by (simp add: py_slice_to_nonneg[OF k] length_sort_desc eleven_rows_eligible min.commute)
qed

subsection \<open>Claims about the cosine\<close>






subsection \<open>Claims about the ranking\<close>

lemma query_vec_Some_truthy:
  "query_vec h req tbl = Inr (Some q) \<Longrightarrow> truthy (summary_id req) \<or> truthy (message_text req)"
  unfolding query_vec_def
  by (cases "message_text req"; cases "summary_id req") (auto split: if_splits)

lemma api_search_similar_ranked:
  assumes "query_vec h req tbl = Inr (Some q)"
  shows "api_search_similar h req tbl =
         Inr (py_slice_to (max 1 (min (top_k req) 10))
                (sort_desc score (map (main_item q) (filter (eligible (summary_id req)) tbl))))"
  using api_search_similar_eq[OF query_vec_Some_truthy[OF assms] assms] by simp




lemma non_increasing_examples:
  "non_increasing [Fin 1, Fin (1 / 2), Fin 0]" "non_increasing [Fin (1 / 2), Fin 0]"
  by (simp_all add: non_increasing_def)



subsection \<open>Self-exclusion, resolution miss, clamp\<close>

lemma api_search_similar_members:
  assumes "query_vec h req tbl = Inr (Some q)" "api_search_similar h req tbl = Inr rs" "r \<in> set rs"
  shows "\<exists>row\<in>set tbl. eligible (summary_id req) row \<and>
           rel_item_type r = item_type row \<and> rel_item_id r = item_id row"
proof -
  from assms(2,3) api_search_similar_ranked[OF assms(1)]
  have "r \<in> set (sort_desc score (map (main_item q) (filter (eligible (summary_id req)) tbl)))"
    using set_py_slice_to by fastforce
  then obtain row where "row \<in> set tbl" "eligible (summary_id req) row" "r = main_item q row"
    by (auto simp: set_sort_desc)
  then show ?thesis by (auto simp: main_item_def)
qed

text \<open>
  C4. In \<^verbatim>\<open>api_search_similar\<close> self-exclusion is in effect whenever \<^verbatim>\<open>summary_id\<close> is given:
  for every table the request is answered, and no returned item is the summary with that
  id. \<^verbatim>\<open>search_similar_items\<close> has no self-exclusion.
\<close>

theorem reference_excludes_self:
  assumes "summary_id req = Some x" and "x \<noteq> []"
  shows "\<exists>rs. api_search_similar h req tbl = Inr rs \<and>
           (\<forall>r\<in>set rs. \<not> (rel_item_type r = lit ''summary'' \<and> rel_item_id r = x))"
proof -
  from assms have t: "truthy (summary_id req) \<or> truthy (message_text req)" by simp
  obtain qo where qo: "query_vec h req tbl = Inr qo" using query_vec_Inr by blast
  show ?thesis
  proof (cases qo)
    case None
    with api_search_similar_unresolved[OF t] qo show ?thesis by simp
  next
    case (Some q)
    with qo have q: "query_vec h req tbl = Inr (Some q)" by simp
    obtain rs where rs: "api_search_similar h req tbl = Inr rs"
      using api_search_similar_Inr[OF t] by blast
    have "\<not> (rel_item_type r = lit ''summary'' \<and> rel_item_id r = x)" if "r \<in> set rs" for r
      using api_search_similar_members[OF q rs that] assms
      by (auto simp: eligible_def is_self_def)
    with rs show ?thesis by blast
  qed
qed

theorem reference_excludes_self_witness:
  "summary_id \<lparr>summary_id = Some (lit ''s1''), message_text = None, top_k = 3\<rparr> = Some (lit ''s1'') \<and>
   lit ''s1'' \<noteq> [] \<and>
   get_embedding (lit ''summary'') (lit ''s1'') example_table = Some [1, 1, 1, 1] \<and>
   api_search_similar length_hash
      \<lparr>summary_id = Some (lit ''s1''), message_text = None, top_k = 3\<rparr> example_table =
     Inr [\<lparr>rel_item_type = lit ''task'', rel_item_id = lit ''t2'', score = Fin (1 / 2), rel_text = None\<rparr>,
          \<lparr>rel_item_type = lit ''summary'', rel_item_id = lit ''s2'', score = Fin 0, rel_text = None\<rparr>] \<and>
   \<not> (\<exists>r\<in>set [\<lparr>rel_item_type = lit ''task'', rel_item_id = lit ''t2'', score = Fin (1 / 2), rel_text = None\<rparr>,
          \<lparr>rel_item_type = lit ''summary'', rel_item_id = lit ''s2'', score = Fin 0, rel_text = None\<rparr>].
      rel_item_type r = lit ''summary'' \<and> rel_item_id r = lit ''s1'')"
  using reference_excludes_self [of "\<lparr>summary_id = Some (lit ''s1''), message_text = None, top_k = 3\<rparr>"
      "lit ''s1''" length_hash example_table]
  by (simp add: api_search_similar_example get_embedding_example lit_Nil_iff lit_eq_iff)

text \<open>
  C7. A search by reference (no message text, a non-empty \<^verbatim>\<open>summary_id\<close>) to a summary that
  is not in the table returns the empty result in both implementations, not an error.
\<close>

theorem absent_reference_empty:
  assumes "\<not> truthy msg" and "x \<noteq> []"
    and "\<forall>r\<in>set tbl. \<not> (item_type r = lit ''summary'' \<and> item_id r = x)"
  shows "api_search_similar h \<lparr>summary_id = Some x, message_text = msg, top_k = k\<rparr> tbl = Inr [] \<and>
         search_similar_items encode rng msg (Some x) k tbl g = ([], g)"
proof -
  let ?req = "\<lparr>summary_id = Some x, message_text = msg, top_k = k\<rparr>"
  have f: "find (\<lambda>r. item_type r = lit ''summary'' \<and> item_id r = x) tbl = None"
    using assms(3) by (simp add: find_None_iff)
  have f': "find (\<lambda>r. Some (item_id r) = Some x \<and> item_type r = lit ''summary'') tbl = None"
    using assms(3) by (auto simp: find_None_iff)
  have "query_vec h ?req tbl = Inr None"
    using query_vec_reference[of ?req x h tbl] assms(1,2) f
    by (simp add: get_embedding_def db_query_one_def)
  then have a: "api_search_similar h ?req tbl = Inr []"
    using assms(2) by (intro api_search_similar_unresolved) simp_all
  have "es_query_text msg (Some x) tbl = None"
    using assms(1,2) f' by (simp add: es_query_text_def db_query_one_def)
  then have "search_similar_items encode rng msg (Some x) k tbl g = ([], g)"
    by (simp add: search_similar_items_eq)
  with a show ?thesis by simp
qed

theorem absent_reference_empty_witness:
  "\<not> truthy None \<and> lit ''s9'' \<noteq> [] \<and>
   \<not> (\<exists>r\<in>set example_table. item_type r = lit ''summary'' \<and> item_id r = lit ''s9'') \<and>
   api_search_similar length_hash
     \<lparr>summary_id = Some (lit ''s9''), message_text = None, top_k = 3\<rparr> example_table = Inr [] \<and>
   search_similar_items example_encode counter_rng None (Some (lit ''s9'')) 3 example_table 0 = ([], 0)"
  using absent_reference_empty [of None "lit ''s9''" example_table length_hash 3 example_encode
      counter_rng 0]
  by (simp add: example_table_def example_rows lit_Nil_iff lit_eq_iff)

text \<open>
  C10 (amended). \<^verbatim>\<open>api_search_similar\<close> never rejects a request for its \<^verbatim>\<open>top_k\<close>: a
  request with a query is answered with at most 10 results. When the query resolves to a
  vector, the number of results is the number of eligible rows capped by
  \<^verbatim>\<open>max(1, min(top_k, 10))\<close>, so it is at least one when a row is eligible, and exactly one
  when moreover \<^verbatim>\<open>top_k\<close> is 0 or negative.
\<close>

theorem top_k_clamped:
  "(truthy (summary_id req) \<or> truthy (message_text req) \<longrightarrow>
      (\<exists>rs. api_search_similar h req tbl = Inr rs \<and> length rs \<le> 10)) \<and>
   (query_vec h req tbl = Inr (Some q) \<longrightarrow>
      (\<exists>rs. api_search_similar h req tbl = Inr rs \<and>
         length rs = min (nat (max 1 (min (top_k req) 10)))
                         (length (filter (eligible (summary_id req)) tbl)) \<and>
         (filter (eligible (summary_id req)) tbl \<noteq> [] \<longrightarrow> rs \<noteq> []) \<and>
         (top_k req \<le> 0 \<and> filter (eligible (summary_id req)) tbl \<noteq> [] \<longrightarrow> length rs = 1)))"
proof (intro conjI impI)
  assume t: "truthy (summary_id req) \<or> truthy (message_text req)"
  obtain qo where qo: "query_vec h req tbl = Inr qo" using query_vec_Inr by blast
  have l0: "0 \<le> max 1 (min (top_k req) 10)" by simp
  show "\<exists>rs. api_search_similar h req tbl = Inr rs \<and> length rs \<le> 10"
    unfolding api_search_similar_eq[OF t qo]
    by (cases qo) (simp_all add: ranked_top(1)[OF l0])
next
  assume q: "query_vec h req tbl = Inr (Some q)"
  let ?n = "length (filter (eligible (summary_id req)) tbl)"
  let ?rs = "py_slice_to (max 1 (min (top_k req) 10))
               (sort_desc score (map (main_item q) (filter (eligible (summary_id req)) tbl)))"
  have l0: "0 \<le> max 1 (min (top_k req) 10)" by simp
  have len: "length ?rs = min (nat (max 1 (min (top_k req) 10))) ?n"
    using ranked_top(1)[OF l0, of "map (main_item q) (filter (eligible (summary_id req)) tbl)"]
    by simp
  have ne: "?rs \<noteq> []" if "filter (eligible (summary_id req)) tbl \<noteq> []"
  proof -
    from that have "0 < ?n" by simp
    moreover have "0 < nat (max 1 (min (top_k req) 10))" by linarith
    ultimately have "0 < length ?rs" unfolding len by simp
    then show ?thesis by auto
  qed
  have one: "length ?rs = 1"
    if "top_k req \<le> 0 \<and> filter (eligible (summary_id req)) tbl \<noteq> []"
  proof -
    from that have "1 \<le> ?n" by (simp add: Suc_le_eq)
    moreover from that have "nat (max 1 (min (top_k req) 10)) = 1" by linarith
    ultimately show ?thesis unfolding len by linarith
  qed
  show "\<exists>rs. api_search_similar h req tbl = Inr rs \<and>
         length rs = min (nat (max 1 (min (top_k req) 10))) ?n \<and>
         (filter (eligible (summary_id req)) tbl \<noteq> [] \<longrightarrow> rs \<noteq> []) \<and>
         (top_k req \<le> 0 \<and> filter (eligible (summary_id req)) tbl \<noteq> [] \<longrightarrow> length rs = 1)"
    using api_search_similar_ranked[OF q] len ne one by blast
qed

theorem top_k_clamped_witness:
  "(truthy (summary_id \<lparr>summary_id = Some (lit ''s1''), message_text = None, top_k = - 5\<rparr>) \<or>
    truthy (message_text \<lparr>summary_id = Some (lit ''s1''), message_text = None, top_k = - 5\<rparr>)) \<and>
   query_vec length_hash \<lparr>summary_id = Some (lit ''s1''), message_text = None, top_k = - 5\<rparr>
     example_table = Inr (Some [1, 1, 1, 1]) \<and>
   filter (eligible (Some (lit ''s1''))) example_table \<noteq> [] \<and>
   api_search_similar length_hash
     \<lparr>summary_id = Some (lit ''s1''), message_text = None, top_k = - 5\<rparr> example_table =
     Inr [\<lparr>rel_item_type = lit ''task'', rel_item_id = lit ''t2'', score = Fin (1 / 2), rel_text = None\<rparr>] \<and>
   map_sum id length
     (api_search_similar length_hash
        \<lparr>summary_id = None, message_text = Some (lit ''hotel''), top_k = 50\<rparr> eleven_rows) = Inr 10"
  using top_k_clamped [of "\<lparr>summary_id = Some (lit ''s1''), message_text = None, top_k = - 5\<rparr>"
      length_hash example_table "[1, 1, 1, 1]"]
    eleven_rows_search [of 50]
  by (auto simp: api_search_similar_example query_vec_example eligible_example_table lit_Nil_iff)

text \<open>
  C10 as stated fails when the query does not resolve: a reference to an absent summary
  with \<^verbatim>\<open>top_k = 0\<close> returns no result although three rows are eligible.
\<close>

theorem top_k_miss_counterexample:
  "api_search_similar length_hash
     \<lparr>summary_id = Some (lit ''s9''), message_text = None, top_k = 0\<rparr> example_table = Inr [] \<and>
   length (filter (eligible (Some (lit ''s9''))) example_table) = 3"
proof -
  let ?req = "\<lparr>summary_id = Some (lit ''s9''), message_text = None, top_k = 0\<rparr>"
  have t: "truthy (summary_id ?req) \<or> truthy (message_text ?req)" by (simp add: lit_Nil_iff)
  from api_search_similar_unresolved[OF t query_vec_example(2)] show ?thesis
    by (simp add: eligible_example_table)
qed

subsection \<open>Claims about the store\<close>

text \<open>
  C3. Every sequence of \<^verbatim>\<open>store_embedding\<close> operations, in either implementation, leaves a
  table in which no two rows share \<open>(item_type, item_id)\<close>; a store keeps that invariant,
  succeeds, and leaves exactly one row at its key, holding the vector, timestamp and text
  of this latest store.
\<close>

theorem store_embedding_upsert:
  "unique_keys (store_many h ops []) \<and>
   unique_keys (fst (es_store_many encode rng ops [] g)) \<and>
   (unique_keys tbl \<longrightarrow>
      unique_keys (snd (store_embedding h ts itype iid t tbl)) \<and>
      unique_keys (snd (fst (es_store_embedding encode rng ts itype iid t tbl g)))) \<and>
   fst (store_embedding h ts itype iid t tbl) = True \<and>
   rows_at itype iid (snd (store_embedding h ts itype iid t tbl)) =
     [\<lparr>item_type = itype, item_id = iid, vector_blob = json_dumps (spec_embed h 64 t),
       timestamp = ts, text_content = None\<rparr>] \<and>
   fst (fst (es_store_embedding encode rng ts itype iid t tbl g)) = True \<and>
   rows_at itype iid (snd (fst (es_store_embedding encode rng ts itype iid t tbl g))) =
     [\<lparr>item_type = itype, item_id = iid,
       vector_blob = json_dumps (fst (generate_embedding encode rng t g)),
       timestamp = ts, text_content = Some t\<rparr>]"
proof -
  have e: "unique_keys []" by (simp add: unique_keys_def)
  show ?thesis
    using unique_keys_store_many[OF e, of h ops] unique_keys_es_store_many[OF e, of encode rng ops g]
    by (simp add: store_embedding_eq es_store_embedding_eq unique_keys_insert_or_replace
        rows_at_insert_or_replace row_key_def)
qed

theorem store_embedding_upsert_witness:
  "unique_keys example_table \<and>
   unique_keys (snd (store_embedding length_hash (lit ''2025-02-02'') (lit ''summary'') (lit ''s1'')
                       (lit ''new text'') example_table)) \<and>
   snd (store_embedding length_hash (lit ''2025-02-02'') (lit ''summary'') (lit ''s1'')
          (lit ''new text'') example_table) =
     [row_t1, row_s2, row_t2,
      \<lparr>item_type = lit ''summary'', item_id = lit ''s1'',
       vector_blob = json_dumps (spec_embed length_hash 64 (lit ''new text'')),
       timestamp = lit ''2025-02-02'', text_content = None\<rparr>] \<and>
   rows_at (lit ''summary'') (lit ''s1'')
     (store_many length_hash
        [(lit ''2025-02-01'', lit ''summary'', lit ''s1'', lit ''old text''),
         (lit ''2025-02-02'', lit ''summary'', lit ''s1'', lit ''new text'')] []) =
     [\<lparr>item_type = lit ''summary'', item_id = lit ''s1'',
       vector_blob = json_dumps (spec_embed length_hash 64 (lit ''new text'')),
       timestamp = lit ''2025-02-02'', text_content = None\<rparr>]"
  using store_embedding_upsert [of length_hash "[]" example_encode counter_rng 0 example_table
      "lit ''2025-02-02''" "lit ''summary''" "lit ''s1''" "lit ''new text''"]
    store_embedding_upsert [of length_hash "[]" example_encode counter_rng 0
      "snd (store_embedding length_hash (lit ''2025-02-01'') (lit ''summary'') (lit ''s1'')
              (lit ''old text'') [])"
      "lit ''2025-02-02''" "lit ''summary''" "lit ''s1''" "lit ''new text''"]
  by (simp add: unique_keys_example_table)
     (simp add: store_embedding_eq insert_or_replace_def same_key_def example_table_def
       example_rows lit_eq_iff)

subsection \<open>Claims about the fallback\<close>






subsection \<open>Corrupt rows\<close>










subsection \<open>Claims about the hashing embedding\<close>

lemma histogram_cong:
  "\<forall>token\<in>set tokens. h token mod int D = h' token mod int D \<Longrightarrow>
   histogram h D tokens = histogram h' D tokens"
  unfolding histogram_def by (auto intro!: arg_cong[where f = length] filter_cong)

lemma text_to_vector_histogram:
  "0 < D \<Longrightarrow>
     text_to_vector h t (int D) = Inr (spec_embed h D t) \<and> length (spec_embed h D t) = D \<and>
     ((\<forall>token\<in>set (py_split t). h token mod int D = h' token mod int D) \<longrightarrow>
        text_to_vector h' t (int D) = text_to_vector h t (int D))"
proof -
  assume D: "0 < D"
  have "spec_embed h' D t = spec_embed h D t"
    if "\<forall>token\<in>set (py_split t). h token mod int D = h' token mod int D"
    using histogram_cong[OF that] by (simp add: spec_embed_def)
  then show ?thesis
    using D by (simp add: text_to_vector_spec length_spec_embed)
qed

lemma text_to_vector_histogram_example:
  "text_to_vector (\<lambda>token. int (length token)) (lit ''a bc  a'') 2 = Inr [1 / sqrt 5, 2 / sqrt 5]"
  using text_to_vector_histogram [of 2 "\<lambda>token. int (length token)" "lit ''a bc  a''"]
  by (simp add: spec_embed_def histogram_def py_split_example l2_norm_1_2 length_lit upt_rec
      numeral_2_eq_2)

lemma py_split_a: "py_split (lit ''a'') = [lit ''a'']"
  by (simp add: py_split_def lit_def py_isspace_def)

lemma spec_embed_nth:
  "i < D \<Longrightarrow> spec_embed h D t ! i =
     (if l2_norm (histogram h D (py_split t)) = 0 then histogram h D (py_split t) ! i
      else histogram h D (py_split t) ! i / l2_norm (histogram h D (py_split t)))"
  by (simp add: spec_embed_def Let_def histogram_def)

text \<open>
  C6. The embedding is a function of the text and of the hash values of its tokens (the
  lemmas above), but \<^verbatim>\<open>main.py\<close> takes those from the builtin \<^verbatim>\<open>hash\<close>, which CPython salts
  per process for strings: under the hash functions of two processes the same text gets
  two different vectors, while the stored vectors outlive the process.
\<close>

theorem hash_salt_changes_vector:
  "text_to_vector length_hash (lit ''a'') DIM \<noteq> text_to_vector shifted_hash (lit ''a'') DIM"
proof -
  let ?h1 = "histogram length_hash 64 (py_split (lit ''a''))"
  let ?h2 = "histogram shifted_hash 64 (py_split (lit ''a''))"
  have a: "?h1 ! 1 = 1" "?h2 ! 1 = 0"
    by (simp_all add: histogram_def py_split_a length_hash_def shifted_hash_def length_lit)
  have "?h1 ! 1 \<in> set ?h1" by (rule nth_mem) (simp add: histogram_def)
  then have "\<exists>x\<in>set ?h1. x \<noteq> 0" using a(1) by (metis zero_neq_one)
  then have "l2_norm ?h1 \<noteq> 0" by (simp add: l2_norm_zero_iff)
  then have "spec_embed length_hash 64 (lit ''a'') ! 1 \<noteq> 0"
    using a(1) by (simp add: spec_embed_nth)
  moreover have "spec_embed shifted_hash 64 (lit ''a'') ! 1 = 0"
    using a(2) by (simp add: spec_embed_nth)
  ultimately have "spec_embed length_hash 64 (lit ''a'') \<noteq> spec_embed shifted_hash 64 (lit ''a'')"
    by metis
  then show ?thesis by (simp add: text_to_vector_DIM)
qed

subsection \<open>Cosine of a vector with itself\<close>





end
